theory Spec2Isabelle
  imports Main "HOL-Library.AList" "HOL-Library.Sublist"
begin

section \<open>The service worker of pre prd (\<^verbatim>\<open>sw.js\<close>)\<close>

text \<open>
  The worker registers three handlers that matter for caching: \<^verbatim>\<open>install\<close>,
  \<^verbatim>\<open>activate\<close> and \<^verbatim>\<open>fetch\<close>. Each handler is a chain of promises over two host
  services, the cache storage and the network. A handler is embedded as a function from
  the host's behaviour and the worker's state to the way its promise settles and the
  state it leaves. The events are taken one at a time. The store operations a handler
  waits for settle within its step; the one write the fetch handler starts without
  waiting for it is recorded as pending and lands in a later step, \<open>settle\<close>.
\<close>

subsection \<open>Values\<close>

text \<open>What a promise rejects with: \<^verbatim>\<open>fetch\<close> rejects with a TypeError, a store operation
  with a DOMException; the string is the message.\<close>

datatype error = TypeError string | DOMException string

text \<open>The fields of a Request and of a Response the worker reads or stores.\<close>

record request =
  req_method :: string
  url :: string
  mode :: string

record response =
  status :: nat
  rtype :: string
  headers :: "(string \<times> string) list"
  body :: string

text \<open>A cache maps a request identity (the URL of a GET request, query included) to the
  stored response. The cache storage lists the named caches in the order of their
  creation, which is the order \<^verbatim>\<open>caches.match\<close> searches and \<^verbatim>\<open>caches.keys\<close> reports.\<close>

type_synonym cache = "(string \<times> response) list"
type_synonym cache_storage = "(string \<times> cache) list"

text \<open>The host during one event: what the network answers to a request (a rejection, or
  the value the promise resolves with), and which store operations reject.\<close>

record host =
  fetch :: "request \<Rightarrow> error + response option"
  match_rejects :: "string \<Rightarrow> error option"
  put_rejects :: "string \<Rightarrow> string \<Rightarrow> error option"
  delete_rejects :: "string \<Rightarrow> error option"

text \<open>The worker's state: the cache storage, the writes to the cache \<^verbatim>\<open>CACHE_NAME\<close> that
  were started and have not settled (identity and response, in the order they were
  started), the requests sent to the network so far, the console, and whether
  \<^verbatim>\<open>self.skipWaiting()\<close> and \<^verbatim>\<open>self.clients.claim()\<close> were called.\<close>

record sw_state =
  caches :: cache_storage
  pending :: "(string \<times> response) list"
  net_log :: "request list"
  console :: "string list"
  skip_waiting :: bool
  claimed :: bool

text \<open>How the promise given to \<^verbatim>\<open>event.waitUntil\<close> settles.\<close>

datatype wait_outcome = WaitFulfilled | WaitRejected error

text \<open>What the fetch handler does with the event: it returns without calling
  \<^verbatim>\<open>event.respondWith\<close> (the host then handles the request itself), or the promise it
  gives to \<^verbatim>\<open>respondWith\<close> resolves with a value (a response or \<^verbatim>\<open>undefined\<close>) or rejects.\<close>

datatype fetch_outcome = NotHandled | Resolved "response option" | RejectedWith error

subsection \<open>Constants\<close>

definition CACHE_NAME :: string where
  "CACHE_NAME = ''pre-prd-v1''"

definition STATIC_CACHE :: string where
  "STATIC_CACHE = ''pre-prd-static-v1''"

definition CORE_ASSETS :: "string list" where
  "CORE_ASSETS =
    [''/'',
     ''/assets/global.css'',
     ''/assets/favicon.svg'',
     ''/assets/manifest.json'',
     ''https://cdn.jsdelivr.net/npm/daisyui@4.12.10/dist/full.min.css'',
     ''https://cdn.tailwindcss.com'',
     ''https://unpkg.com/htmx.org@1.9.12'',
     ''https://fonts.googleapis.com/css2?family=Inter:wght@300;400;500;600;700;800&display=swap'']"

subsection \<open>Host services\<close>

definition console_log :: "string \<Rightarrow> sw_state \<Rightarrow> sw_state" where
  "console_log m s = s\<lparr>console := console s @ [m]\<rparr>"

text \<open>\<^verbatim>\<open>caches.open(name)\<close>: the cache of that name, created empty when absent.\<close>

definition caches_open :: "string \<Rightarrow> cache_storage \<Rightarrow> cache_storage" where
  "caches_open name S = (if name \<in> fst ` set S then S else S @ [(name, [])])"

text \<open>The search of \<^verbatim>\<open>caches.match\<close>: the first cache, in order, that holds the identity.\<close>

fun match_all :: "cache_storage \<Rightarrow> string \<Rightarrow> response option" where
  "match_all [] k = None"
| "match_all ((name, c) # S) k =
     (case map_of c k of Some r \<Rightarrow> Some r | None \<Rightarrow> match_all S k)"

text \<open>\<^verbatim>\<open>caches.match(request)\<close>: rejects when the store cannot be read, and resolves with
  the stored response or \<^verbatim>\<open>undefined\<close> otherwise.\<close>

definition caches_match :: "host \<Rightarrow> cache_storage \<Rightarrow> string \<Rightarrow> error + response option" where
  "caches_match h S k =
     (case match_rejects h k of Some e \<Rightarrow> Inl e | None \<Rightarrow> Inr (match_all S k))"

text \<open>\<^verbatim>\<open>cache.put(request, response)\<close> on the cache \<open>name\<close>: the entry of the identity is
  replaced or added; a rejected write leaves the cache as it was.\<close>

definition cache_put :: "host \<Rightarrow> string \<Rightarrow> string \<Rightarrow> response \<Rightarrow> cache_storage \<Rightarrow> cache_storage" where
  "cache_put h name k r S =
     (case put_rejects h name k of
        Some e \<Rightarrow> S
      | None \<Rightarrow> AList.map_entry name (AList.update k r) S)"

text \<open>The request \<^verbatim>\<open>cache.addAll\<close> builds from a URL string.\<close>

definition request_of :: "string \<Rightarrow> request" where
  "request_of u = \<lparr>req_method = ''GET'', url = u, mode = ''cors''\<rparr>"

text \<open>One entry of \<^verbatim>\<open>cache.addAll\<close>: the fetch must resolve with a response whose status
  is in the range 200 to 299.\<close>

definition entry_response :: "host \<Rightarrow> string \<Rightarrow> error + response" where
  "entry_response h u =
     (case fetch h (request_of u) of
        Inl e \<Rightarrow> Inl e
      | Inr None \<Rightarrow> Inl (TypeError ''no response'')
      | Inr (Some r) \<Rightarrow>
          if 200 \<le> status r \<and> status r < 300 then Inr r
          else Inl (TypeError ''bad response status''))"

fun fetch_entries :: "host \<Rightarrow> string list \<Rightarrow> error + (string \<times> response) list" where
  "fetch_entries h [] = Inr []"
| "fetch_entries h (u # us) =
     (case entry_response h u of
        Inl e \<Rightarrow> Inl e
      | Inr r \<Rightarrow>
          (case fetch_entries h us of
             Inl e \<Rightarrow> Inl e
           | Inr kvs \<Rightarrow> Inr ((u, r) # kvs)))"

fun first_put_error :: "host \<Rightarrow> string \<Rightarrow> string list \<Rightarrow> error option" where
  "first_put_error h name [] = None"
| "first_put_error h name (u # us) =
     (case put_rejects h name u of Some e \<Rightarrow> Some e | None \<Rightarrow> first_put_error h name us)"

fun put_entries :: "(string \<times> response) list \<Rightarrow> cache \<Rightarrow> cache" where
  "put_entries [] c = c"
| "put_entries ((k, r) # kvs) c = put_entries kvs (AList.update k r c)"

text \<open>\<^verbatim>\<open>cache.addAll(urls)\<close> on the cache \<open>name\<close>: every URL is requested from the
  network; the responses are stored together, and only when every fetch and every write
  succeeded. The result is the rejection, if any, and the state left.\<close>

definition cache_addAll :: "host \<Rightarrow> string \<Rightarrow> string list \<Rightarrow> sw_state \<Rightarrow> error option \<times> sw_state" where
  "cache_addAll h name urls s =
     (let s1 = s\<lparr>net_log := net_log s @ map request_of urls\<rparr> in
      case fetch_entries h urls of
        Inl e \<Rightarrow> (Some e, s1)
      | Inr kvs \<Rightarrow>
          (case first_put_error h name urls of
             Some e \<Rightarrow> (Some e, s1)
           | None \<Rightarrow>
               (None, s1\<lparr>caches := AList.map_entry name (put_entries kvs) (caches s1)\<rparr>)))"

subsection \<open>The install handler\<close>

definition install_handler :: "host \<Rightarrow> sw_state \<Rightarrow> wait_outcome \<times> sw_state" where
  "install_handler h s =
     (let s0 = console_log ''[SW] Installing service worker'' s;
          s1 = s0\<lparr>caches := caches_open STATIC_CACHE (caches s0)\<rparr>;
          s2 = console_log ''[SW] Caching core assets'' s1
      in case cache_addAll h STATIC_CACHE CORE_ASSETS s2 of
           (None, s3) \<Rightarrow>
             (WaitFulfilled, (console_log ''[SW] Core assets cached'' s3)\<lparr>skip_waiting := True\<rparr>)
         | (Some error, s3) \<Rightarrow>
             (WaitFulfilled, console_log ''[SW] Cache installation failed:'' s3))"

subsection \<open>The activate handler\<close>

text \<open>The callback mapped over the cache names: a name that is neither \<open>CACHE_NAME\<close> nor
  \<open>STATIC_CACHE\<close> is deleted. Every delete is started, whatever the others do; the
  rejections are collected in the order of the names.\<close>

fun delete_old :: "host \<Rightarrow> string list \<Rightarrow> sw_state \<Rightarrow> error list \<times> sw_state" where
  "delete_old h [] s = ([], s)"
| "delete_old h (cacheName # rest) s =
     (if cacheName \<noteq> CACHE_NAME \<and> cacheName \<noteq> STATIC_CACHE then
        (let s1 = console_log (''[SW] Deleting old cache: '' @ cacheName) s in
         case delete_rejects h cacheName of
           Some e \<Rightarrow> (case delete_old h rest s1 of (es, s2) \<Rightarrow> (e # es, s2))
         | None \<Rightarrow> delete_old h rest (s1\<lparr>caches := AList.delete cacheName (caches s1)\<rparr>))
      else delete_old h rest s)"

text \<open>\<^verbatim>\<open>Promise.all\<close> rejects with a rejection of its members when there is one; the
  \<^verbatim>\<open>then\<close> that claims the clients runs only when there is none.\<close>

definition activate_handler :: "host \<Rightarrow> sw_state \<Rightarrow> wait_outcome \<times> sw_state" where
  "activate_handler h s =
     (let s0 = console_log ''[SW] Activating service worker'' s in
      case delete_old h (map fst (caches s0)) s0 of
        ([], s1) \<Rightarrow>
          (WaitFulfilled, (console_log ''[SW] Service worker activated'' s1)\<lparr>claimed := True\<rparr>)
      | (e # es, s1) \<Rightarrow> (WaitRejected e, s1))"

subsection \<open>The fetch handler\<close>

text \<open>The \<^verbatim>\<open>then\<close> of the network fetch: a missing response, a status other than 200 or a
  type other than basic is returned as it is; for any other response the write of its
  clone to the cache \<open>CACHE_NAME\<close> under the request is started, and the response is
  returned without waiting for that write.\<close>

definition on_response :: "host \<Rightarrow> request \<Rightarrow> response option \<Rightarrow> sw_state \<Rightarrow> fetch_outcome \<times> sw_state" where
  "on_response h req resp s =
     (case resp of
        None \<Rightarrow> (Resolved None, s)
      | Some r \<Rightarrow>
          if status r \<noteq> 200 \<or> rtype r \<noteq> ''basic'' then (Resolved (Some r), s)
          else
            (Resolved (Some r), s\<lparr>pending := pending s @ [(url req, r)]\<rparr>))"

text \<open>The \<^verbatim>\<open>catch\<close> of the network fetch: a navigation gets what \<^verbatim>\<open>caches.match("/")\<close>
  gives; for any other request the error is thrown again.\<close>

definition on_error :: "host \<Rightarrow> request \<Rightarrow> error \<Rightarrow> sw_state \<Rightarrow> fetch_outcome \<times> sw_state" where
  "on_error h req err s =
     (let s1 = console_log ''[SW] Network fetch failed:'' s in
      if mode req = ''navigate'' then
        (case caches_match h (caches s1) ''/'' of
           Inl e \<Rightarrow> (RejectedWith e, s1)
         | Inr root \<Rightarrow> (Resolved root, s1))
      else (RejectedWith err, s1))"

definition fetch_handler :: "host \<Rightarrow> request \<Rightarrow> sw_state \<Rightarrow> fetch_outcome \<times> sw_state" where
  "fetch_handler h req s =
     (if req_method req \<noteq> ''GET'' then (NotHandled, s)
      else if prefix ''chrome-extension://'' (url req) then (NotHandled, s)
      else
        (case caches_match h (caches s) (url req) of
           Inl e \<Rightarrow> (RejectedWith e, s)
         | Inr (Some cachedResponse) \<Rightarrow>
             (Resolved (Some cachedResponse),
              console_log (''[SW] Serving from cache: '' @ url req) s)
         | Inr None \<Rightarrow>
             (let s1 = console_log (''[SW] Fetching from network: '' @ url req) s;
                  s2 = s1\<lparr>net_log := net_log s1 @ [req]\<rparr>
              in case fetch h req of
                   Inr resp \<Rightarrow> on_response h req resp s2
                 | Inl err \<Rightarrow> on_error h req err s2)))"

subsection \<open>Pending writes\<close>

text \<open>The write the fetch handler started,
  \<^verbatim>\<open>caches.open(CACHE_NAME).then((cache) => { cache.put(event.request, responseToCache); })\<close>,
  when it lands: the cache is opened, then the entry is put.\<close>

definition settle_write :: "host \<Rightarrow> string \<times> response \<Rightarrow> cache_storage \<Rightarrow> cache_storage" where
  "settle_write h w S = cache_put h CACHE_NAME (fst w) (snd w) (caches_open CACHE_NAME S)"

text \<open>All pending writes land, in the order they were started.\<close>

definition settle :: "host \<Rightarrow> sw_state \<Rightarrow> sw_state" where
  "settle h s = s\<lparr>caches := fold (settle_write h) (pending s) (caches s), pending := []\<rparr>"

subsection \<open>Auxiliary notions\<close>

text \<open>No stored identity carries the scheme the fetch handler skips, and no pending write
  does. The state starts with an empty store and nothing pending, and every step keeps
  this property (lemmas \<open>state_ok_install_handler\<close>, \<open>state_ok_activate_handler\<close>,
  \<open>state_ok_fetch_handler\<close>, \<open>state_ok_settle\<close>).\<close>

definition store_ok :: "cache_storage \<Rightarrow> bool" where
  "store_ok S =
     list_all (\<lambda>(name, c). list_all (\<lambda>(k, r). \<not> prefix ''chrome-extension://'' k) c) S"

definition state_ok :: "sw_state \<Rightarrow> bool" where
  "state_ok s \<longleftrightarrow>
     store_ok (caches s) \<and> list_all (\<lambda>(k, r). \<not> prefix ''chrome-extension://'' k) (pending s)"

text \<open>No cache that \<^verbatim>\<open>caches.match\<close> searches before the cache \<open>name\<close> holds the identity.\<close>

fun misses_before :: "string \<Rightarrow> cache_storage \<Rightarrow> string \<Rightarrow> bool" where
  "misses_before name [] k = True"
| "misses_before name ((n, c) # S) k =
     (n = name \<or> (map_of c k = None \<and> misses_before name S k))"

text \<open>The test of the activate handler's callback.\<close>

definition stale :: "string \<Rightarrow> bool" where
  "stale n \<longleftrightarrow> n \<noteq> CACHE_NAME \<and> n \<noteq> STATIC_CACHE"

subsection \<open>Sample inputs\<close>

definition shell :: response where
  "shell = \<lparr>status = 200, rtype = ''basic'', headers = [(''content-type'', ''text/html'')],
            body = ''<html>pre prd</html>''\<rparr>"

definition not_found :: response where
  "not_found = \<lparr>status = 404, rtype = ''basic'', headers = [], body = ''Not Found''\<rparr>"

definition page_request :: request where
  "page_request = \<lparr>req_method = ''GET'', url = ''/editor'', mode = ''navigate''\<rparr>"

definition script_request :: request where
  "script_request = \<lparr>req_method = ''GET'', url = ''/assets/app.js'', mode = ''no-cors''\<rparr>"

definition post_request :: request where
  "post_request = \<lparr>req_method = ''POST'', url = ''/export'', mode = ''cors''\<rparr>"

text \<open>A host whose network is down and whose store works.\<close>

definition offline :: host where
  "offline = \<lparr>fetch = (\<lambda>q. Inl (TypeError ''Failed to fetch'')),
              match_rejects = (\<lambda>k. None),
              put_rejects = (\<lambda>name k. None),
              delete_rejects = (\<lambda>name. None)\<rparr>"

text \<open>A host whose network answers every request with \<open>r\<close>.\<close>

definition serving :: "response \<Rightarrow> host" where
  "serving r = offline\<lparr>fetch := (\<lambda>q. Inr (Some r))\<rparr>"

text \<open>A host where one manifest entry cannot be fetched.\<close>

definition cdn_down :: host where
  "cdn_down = offline\<lparr>fetch := (\<lambda>q. if url q = ''https://cdn.tailwindcss.com''
                                       then Inl (TypeError ''Failed to fetch'')
                                       else Inr (Some shell))\<rparr>"

text \<open>A host whose store cannot be read, and one that cannot delete an old cache.\<close>

definition broken_store :: host where
  "broken_store = (serving shell)\<lparr>match_rejects := (\<lambda>k. Some (DOMException ''The operation failed''))\<rparr>"

definition stuck_delete :: host where
  "stuck_delete = offline\<lparr>delete_rejects :=
     (\<lambda>name. if name = ''pre-prd-v0'' then Some (DOMException ''The operation failed'') else None)\<rparr>"

definition fresh :: sw_state where
  "fresh = \<lparr>caches = [], pending = [], net_log = [], console = [], skip_waiting = False, claimed = False\<rparr>"

definition installed :: sw_state where
  "installed = \<lparr>caches = [(STATIC_CACHE, [(''/'', shell)]), (CACHE_NAME, [])],
                pending = [], net_log = [], console = [], skip_waiting = True, claimed = True\<rparr>"

text \<open>The store after the version tag went from \<^verbatim>\<open>v0\<close> to \<^verbatim>\<open>v1\<close>, before activation.\<close>

definition upgraded :: sw_state where
  "upgraded = \<lparr>caches = [(''pre-prd-static-v0'', [(''/'', not_found)]),
                          (''pre-prd-v0'', [(''/editor'', shell)]),
                          (''pre-prd-stuff'', [(''/assets/app.js'', shell)]),
                          (STATIC_CACHE, [(''/'', shell)]),
                          (CACHE_NAME, [])],
               pending = [], net_log = [], console = [], skip_waiting = True, claimed = False\<rparr>"

section \<open>Properties of the host services\<close>

lemma match_all_SomeD:
  "match_all S k = Some r \<Longrightarrow> \<exists>name c. (name, c) \<in> set S \<and> map_of c k = Some r"
  by (induction S k rule: match_all.induct) (auto split: option.splits)

lemma match_all_None_iff:
  "match_all S k = None \<longleftrightarrow> (\<forall>name c. (name, c) \<in> set S \<longrightarrow> map_of c k = None)"
  by (induction S k rule: match_all.induct) (auto split: option.splits)

lemma store_ok_key:
  "store_ok S \<Longrightarrow> (name, c) \<in> set S \<Longrightarrow> map_of c k = Some r \<Longrightarrow> \<not> prefix ''chrome-extension://'' k"
  by (auto simp: store_ok_def list_all_iff dest!: map_of_SomeD)

lemma match_all_append_empty: "match_all (S @ [(name, [])]) k = match_all S k"
  by (induction S k rule: match_all.induct) (auto split: option.splits)

lemma match_all_caches_open: "match_all (caches_open name S) k = match_all S k"
  by (simp add: caches_open_def match_all_append_empty)

lemma caches_open_present: "name \<in> fst ` set (caches_open name S)"
  by (simp add: caches_open_def)

lemma match_all_after_put:
  "match_all S k = None \<Longrightarrow> name \<in> fst ` set S \<Longrightarrow>
   match_all (AList.map_entry name (AList.update k r) S) k = Some r"
proof (induction S)
  case Nil
  then show ?case by simp
next
  case (Cons p S)
  obtain n c where p: "p = (n, c)" by (cases p)
  from Cons.prems(1) p have miss: "map_of c k = None" "match_all S k = None"
    by (auto split: option.splits)
  show ?case
  proof (cases "n = name")
    case True
    then show ?thesis by (simp add: p update_conv')
  next
    case False
    with Cons.prems(2) p have "name \<in> fst ` set S" by auto
    with Cons.IH miss False show ?thesis by (simp add: p)
  qed
qed

lemma stored_after_put:
  "name \<in> fst ` set S \<Longrightarrow>
   \<exists>c. map_of (AList.map_entry name (AList.update k r) S) name = Some c \<and> map_of c k = Some r"
  by (induction S) (auto simp: update_conv')

lemma map_of_caches_open_other:
  "n \<noteq> name \<Longrightarrow> map_of (caches_open name S) n = map_of S n"
  by (auto simp: caches_open_def map_add_def split: option.splits)

lemma map_of_cache_put_other:
  "n \<noteq> name \<Longrightarrow> map_of (cache_put h name k r S) n = map_of S n"
  by (simp add: cache_put_def map_of_map_entry split: option.splits)

lemma console_log_fields:
  "caches (console_log m s) = caches s"
  "pending (console_log m s) = pending s"
  "net_log (console_log m s) = net_log s"
  "claimed (console_log m s) = claimed s"
  "skip_waiting (console_log m s) = skip_waiting s"
  "console (console_log m s) = console s @ [m]"
  by (simp_all add: console_log_def)

lemma delete_old_Cons:
  "delete_old h (n # ns) s =
    (if stale n then
       (case delete_rejects h n of
          Some e \<Rightarrow>
            (e # fst (delete_old h ns (console_log (''[SW] Deleting old cache: '' @ n) s)),
             snd (delete_old h ns (console_log (''[SW] Deleting old cache: '' @ n) s)))
        | None \<Rightarrow>
            delete_old h ns
              ((console_log (''[SW] Deleting old cache: '' @ n) s)
                 \<lparr>caches := AList.delete n (caches s)\<rparr>))
     else delete_old h ns s)"
  by (simp add: delete_old.simps(2) stale_def Let_def console_log_fields split_beta split: option.splits)

declare delete_old.simps(2) [simp del]

lemma delete_old_caches:
  "caches (snd (delete_old h ns s)) =
     filter (\<lambda>p. \<not> (fst p \<in> set ns \<and> stale (fst p) \<and> delete_rejects h (fst p) = None))
       (caches s)"
proof (induction ns arbitrary: s)
  case Nil
  then show ?case by simp
next
  case (Cons n ns)
  show ?case
  proof (cases "stale n \<and> delete_rejects h n = None")
    case True
    have "caches (snd (delete_old h (n # ns) s)) =
        filter (\<lambda>p. \<not> (fst p \<in> set ns \<and> stale (fst p) \<and> delete_rejects h (fst p) = None))
          (AList.delete n (caches s))"
      using True by (simp add: delete_old_Cons Cons.IH)
    also have "\<dots> = filter (\<lambda>p. \<not> (fst p \<in> set (n # ns) \<and> stale (fst p) \<and> delete_rejects h (fst p) = None))
          (caches s)"
      using True by (auto simp: AList.delete_eq intro!: filter_cong)
    finally show ?thesis .
  next
    case False
    have "caches (snd (delete_old h (n # ns) s)) =
        filter (\<lambda>p. \<not> (fst p \<in> set ns \<and> stale (fst p) \<and> delete_rejects h (fst p) = None))
          (caches s)"
      using False
      by (cases "delete_rejects h n")
         (simp_all add: delete_old_Cons Cons.IH console_log_fields)
    also have "\<dots> = filter (\<lambda>p. \<not> (fst p \<in> set (n # ns) \<and> stale (fst p) \<and> delete_rejects h (fst p) = None))
          (caches s)"
      using False by (auto intro!: filter_cong)
    finally show ?thesis .
  qed
qed

lemma delete_old_flags:
  "claimed (snd (delete_old h ns s)) = claimed s"
  "skip_waiting (snd (delete_old h ns s)) = skip_waiting s"
  "net_log (snd (delete_old h ns s)) = net_log s"
  "pending (snd (delete_old h ns s)) = pending s"
  by (induction ns arbitrary: s; simp add: delete_old_Cons console_log_fields split: option.splits)+

lemma delete_old_errors:
  "fst (delete_old h ns s) =
     List.map_filter (\<lambda>n. if stale n then delete_rejects h n else None) ns"
  by (induction ns arbitrary: s)
     (simp_all add: delete_old_Cons List.map_filter_simps split: option.splits)

lemma map_filter_Nil_iff: "List.map_filter f xs = [] \<longleftrightarrow> (\<forall>x \<in> set xs. f x = None)"
  by (induction xs) (simp_all add: List.map_filter_simps split: option.splits)

lemma map_filter_ConsD: "List.map_filter f xs = y # ys \<Longrightarrow> \<exists>x \<in> set xs. f x = Some y"
  by (induction xs) (auto simp: List.map_filter_simps split: option.splits)

lemma activate_handler_eq:
  "activate_handler h s =
     (case fst (delete_old h (map fst (caches s)) (console_log ''[SW] Activating service worker'' s)) of
        [] \<Rightarrow>
          (WaitFulfilled,
           (console_log ''[SW] Service worker activated''
              (snd (delete_old h (map fst (caches s)) (console_log ''[SW] Activating service worker'' s))))
             \<lparr>claimed := True\<rparr>)
      | e # es \<Rightarrow>
          (WaitRejected e,
           snd (delete_old h (map fst (caches s)) (console_log ''[SW] Activating service worker'' s))))"
  by (simp add: activate_handler_def Let_def console_log_fields split: prod.splits list.splits)

lemma activate_caches:
  "caches (snd (activate_handler h s)) =
     filter (\<lambda>(n, c). n = CACHE_NAME \<or> n = STATIC_CACHE \<or> delete_rejects h n \<noteq> None) (caches s)"
proof -
  have "caches (snd (activate_handler h s)) =
      caches (snd (delete_old h (map fst (caches s)) (console_log ''[SW] Activating service worker'' s)))"
    by (simp add: activate_handler_eq console_log_fields split: list.splits)
  also have "\<dots> = filter (\<lambda>(n, c). n = CACHE_NAME \<or> n = STATIC_CACHE \<or> delete_rejects h n \<noteq> None) (caches s)"
    by (auto simp: delete_old_caches console_log_fields stale_def intro!: filter_cong)
  finally show ?thesis .
qed

lemma map_of_filter_current:
  "k = CACHE_NAME \<or> k = STATIC_CACHE \<Longrightarrow>
   map_of (filter (\<lambda>(n, c). n = CACHE_NAME \<or> n = STATIC_CACHE) S) k = map_of S k"
  by (induction S) auto

lemma fetch_entries_fails:
  "u \<in> set us \<Longrightarrow> entry_response h u = Inl e \<Longrightarrow> \<exists>e'. fetch_entries h us = Inl e'"
  by (induction us) (auto split: sum.splits)

lemma store_ok_empty: "store_ok []"
  by (simp add: store_ok_def)

lemma store_ok_iff:
  "store_ok S \<longleftrightarrow>
     (\<forall>name c k r. (name, c) \<in> set S \<longrightarrow> (k, r) \<in> set c \<longrightarrow> \<not> prefix ''chrome-extension://'' k)"
  by (auto simp: store_ok_def list_all_iff)

lemma set_update_cases:
  "(k', v') \<in> set (AList.update k v c) \<Longrightarrow> (k', v') = (k, v) \<or> (k', v') \<in> set c"
  by (induction c) (auto split: if_splits)

lemma set_map_entry_cases:
  "(n, c') \<in> set (AList.map_entry name f S) \<Longrightarrow>
   (n, c') \<in> set S \<or> (\<exists>c. (name, c) \<in> set S \<and> c' = f c)"
  by (induction S) (auto split: if_splits)

lemma set_put_entries_cases:
  "(k, r) \<in> set (put_entries kvs c) \<Longrightarrow> k \<in> fst ` set kvs \<or> (k, r) \<in> set c"
proof (induction kvs c rule: put_entries.induct)
  case (1 c)
  then show ?case by simp
next
  case (2 k' r' kvs c)
  from "2.prems" have "(k, r) \<in> set (put_entries kvs (AList.update k' r' c))" by simp
  from "2.IH" [OF this] show ?case
    by (auto dest: set_update_cases)
qed

lemma fetch_entries_keys: "fetch_entries h us = Inr kvs \<Longrightarrow> map fst kvs = us"
  by (induction us arbitrary: kvs) (auto split: sum.splits)

lemma store_ok_caches_open: "store_ok S \<Longrightarrow> store_ok (caches_open name S)"
  by (simp add: store_ok_def caches_open_def)

lemma store_ok_cache_put:
  assumes "store_ok S" and "\<not> prefix ''chrome-extension://'' k"
  shows "store_ok (cache_put h name k r S)"
proof (cases "put_rejects h name k")
  case None
  have "\<not> prefix ''chrome-extension://'' k'"
    if "(n, c') \<in> set (AList.map_entry name (AList.update k r) S)" and "(k', r') \<in> set c'"
    for n c' k' r'
  proof -
    from set_map_entry_cases [OF that(1)]
    consider "(n, c') \<in> set S" | c where "(name, c) \<in> set S" "c' = AList.update k r c"
      by blast
    then show ?thesis
    proof cases
      case 1
      with assms(1) that(2) show ?thesis by (auto simp: store_ok_iff)
    next
      case 2
      with that(2) have "(k', r') = (k, r) \<or> (k', r') \<in> set c"
        by (auto dest: set_update_cases)
      with assms 2(1) show ?thesis by (auto simp: store_ok_iff)
    qed
  qed
  with None show ?thesis by (auto simp: store_ok_iff cache_put_def)
next
  case (Some e)
  with assms(1) show ?thesis by (simp add: cache_put_def)
qed

lemma core_assets_no_extension:
  "u \<in> set CORE_ASSETS \<Longrightarrow> \<not> prefix ''chrome-extension://'' u"
  by (auto simp: CORE_ASSETS_def)

lemma fetch_handler_caches: "caches (snd (fetch_handler h req s)) = caches s"
  by (simp add: fetch_handler_def on_response_def on_error_def Let_def console_log_fields
      split: sum.splits option.splits)

lemma store_ok_fetch_handler:
  "store_ok (caches s) \<Longrightarrow> store_ok (caches (snd (fetch_handler h req s)))"
  by (simp add: fetch_handler_caches)

lemma store_ok_activate_handler:
  "store_ok (caches s) \<Longrightarrow> store_ok (caches (snd (activate_handler h s)))"
  by (auto simp: activate_caches store_ok_iff)

lemma store_ok_install_handler:
  assumes "store_ok (caches s)"
  shows "store_ok (caches (snd (install_handler h s)))"
proof (cases "fetch_entries h CORE_ASSETS")
  case (Inl e)
  then show ?thesis
    using assms
    by (simp add: install_handler_def cache_addAll_def Let_def console_log_def store_ok_caches_open)
next
  case (Inr kvs)
  have keys: "fst ` set kvs = set CORE_ASSETS"
    using fetch_entries_keys [OF Inr] by (metis list.set_map)
  have "store_ok (AList.map_entry STATIC_CACHE (put_entries kvs) (caches_open STATIC_CACHE (caches s)))"
    using store_ok_caches_open [OF assms, of STATIC_CACHE] keys core_assets_no_extension
    unfolding store_ok_iff
    by (blast dest: set_map_entry_cases set_put_entries_cases)
  then show ?thesis
    using assms Inr
    by (simp add: install_handler_def cache_addAll_def Let_def console_log_def store_ok_caches_open
        split: option.splits)
qed


lemma misses_before_miss: "match_all S k = None \<Longrightarrow> misses_before name S k"
  by (induction S k rule: match_all.induct) (auto split: option.splits)

lemma misses_before_caches_open:
  "misses_before name S k \<Longrightarrow> misses_before name (caches_open name S) k"
  by (induction name S k rule: misses_before.induct) (auto simp: caches_open_def)

lemma misses_before_map_entry:
  "misses_before name S k \<Longrightarrow> misses_before name (AList.map_entry name f S) k"
  by (induction name S k rule: misses_before.induct) auto

lemma misses_before_settle_write:
  "misses_before CACHE_NAME S k \<Longrightarrow> misses_before CACHE_NAME (settle_write h w S) k"
  by (simp add: settle_write_def cache_put_def misses_before_caches_open misses_before_map_entry
      split: option.splits)

lemma misses_before_fold:
  "misses_before CACHE_NAME S k \<Longrightarrow> misses_before CACHE_NAME (fold (settle_write h) ws S) k"
  by (induction ws arbitrary: S) (simp_all add: misses_before_settle_write)

lemma match_all_put_first:
  "misses_before name S k \<Longrightarrow> name \<in> fst ` set S \<Longrightarrow>
   match_all (AList.map_entry name (AList.update k r) S) k = Some r"
proof (induction name S k rule: misses_before.induct)
  case (1 name k)
  then show ?case by simp
next
  case (2 name n c S k)
  show ?case
  proof (cases "n = name")
    case True
    then show ?thesis by (simp add: update_conv')
  next
    case False
    with "2.prems" have "map_of c k = None" "misses_before name S k" "name \<in> fst ` set S"
      by auto
    with "2.IH" False show ?thesis by simp
  qed
qed

lemma map_of_settle_write_other:
  "n \<noteq> CACHE_NAME \<Longrightarrow> map_of (settle_write h w S) n = map_of S n"
  by (simp add: settle_write_def map_of_cache_put_other map_of_caches_open_other)

lemma map_of_fold_settle_other:
  "n \<noteq> CACHE_NAME \<Longrightarrow> map_of (fold (settle_write h) ws S) n = map_of S n"
  by (induction ws arbitrary: S) (simp_all add: map_of_settle_write_other)

lemma store_ok_fold_settle:
  "store_ok S \<Longrightarrow> list_all (\<lambda>(k, r). \<not> prefix ''chrome-extension://'' k) ws \<Longrightarrow>
   store_ok (fold (settle_write h) ws S)"
  by (induction ws arbitrary: S)
     (auto simp: settle_write_def store_ok_cache_put store_ok_caches_open)

lemma state_ok_fresh: "state_ok fresh"
  by (simp add: state_ok_def store_ok_def fresh_def)

lemma state_ok_settle: "state_ok s \<Longrightarrow> state_ok (settle h s)"
  by (simp add: state_ok_def settle_def store_ok_fold_settle)

lemma fetch_handler_pending:
  "pending (snd (fetch_handler h req s)) = pending s \<or>
   (\<not> prefix ''chrome-extension://'' (url req) \<and>
    (\<exists>r. pending (snd (fetch_handler h req s)) = pending s @ [(url req, r)]))"
  by (auto simp: fetch_handler_def on_response_def on_error_def Let_def console_log_fields
      split: sum.splits option.splits)

lemma state_ok_fetch_handler:
  assumes "state_ok s"
  shows "state_ok (snd (fetch_handler h req s))"
  using assms fetch_handler_pending [of h req s]
  by (auto simp: state_ok_def fetch_handler_caches)

lemma install_handler_pending: "pending (snd (install_handler h s)) = pending s"
  by (simp add: install_handler_def cache_addAll_def Let_def console_log_def
      split: sum.splits option.splits)

lemma activate_handler_pending: "pending (snd (activate_handler h s)) = pending s"
  by (simp add: activate_handler_eq delete_old_flags console_log_fields split: list.splits)

lemma state_ok_install_handler: "state_ok s \<Longrightarrow> state_ok (snd (install_handler h s))"
  by (simp add: state_ok_def store_ok_install_handler install_handler_pending)

lemma state_ok_activate_handler: "state_ok s \<Longrightarrow> state_ok (snd (activate_handler h s))"
  by (simp add: state_ok_def store_ok_activate_handler activate_handler_pending)

section \<open>Properties of the handlers\<close>

subsection \<open>Cache first\<close>

text \<open>
  C1. A GET request whose identity is stored in some cache is answered with a stored
  response: the promise given to \<^verbatim>\<open>respondWith\<close> resolves with the response that
  \<^verbatim>\<open>caches.match\<close> finds for it, the network is not asked, and the store is left as it
  was. The store is one the handlers can have built (\<open>store_ok\<close>), and the lookup is not
  rejected.
\<close>

theorem stored_match_is_exclusive_answer:
  assumes "store_ok (caches s)" and "req_method req = ''GET''"
    and "match_rejects h (url req) = None"
    and "(name, c) \<in> set (caches s)" and "map_of c (url req) = Some stored"
  shows "\<exists>r. match_all (caches s) (url req) = Some r \<and>
             (\<exists>name' c'. (name', c') \<in> set (caches s) \<and> map_of c' (url req) = Some r) \<and>
             fst (fetch_handler h req s) = Resolved (Some r) \<and>
             net_log (snd (fetch_handler h req s)) = net_log s \<and>
             caches (snd (fetch_handler h req s)) = caches s"
proof -
  from assms(4,5) have "match_all (caches s) (url req) \<noteq> None"
    by (auto simp: match_all_None_iff)
  then obtain r where r: "match_all (caches s) (url req) = Some r" by blast
  have ext: "\<not> prefix ''chrome-extension://'' (url req)"
    using store_ok_key [OF assms(1,4,5)] .
  have "fst (fetch_handler h req s) = Resolved (Some r) \<and>
        net_log (snd (fetch_handler h req s)) = net_log s \<and>
        caches (snd (fetch_handler h req s)) = caches s"
    using r ext assms(2,3)
    by (simp add: fetch_handler_def caches_match_def console_log_fields)
  with r match_all_SomeD [OF r] show ?thesis by blast
qed

theorem stored_match_is_exclusive_answer_witness:
  "fst (fetch_handler offline \<lparr>req_method = ''GET'', url = ''/'', mode = ''navigate''\<rparr> installed)
     = Resolved (Some shell) \<and>
   net_log (snd (fetch_handler offline \<lparr>req_method = ''GET'', url = ''/'', mode = ''navigate''\<rparr> installed))
     = []"
  using stored_match_is_exclusive_answer
    [where s = installed and h = offline and name = STATIC_CACHE and c = "[(''/'', shell)]"
       and stored = shell and req = "\<lparr>req_method = ''GET'', url = ''/'', mode = ''navigate''\<rparr>"]
  by (simp add: store_ok_def installed_def offline_def)

subsection \<open>Install\<close>

text \<open>
  C2, as the code has it. When a manifest entry fails to fetch during install, nothing of
  the manifest is stored (the static cache is opened and left as it was),
  \<^verbatim>\<open>skipWaiting\<close> is not called and the failure is logged; the \<^verbatim>\<open>catch\<close> that logs it
  returns normally, so the promise given to \<^verbatim>\<open>event.waitUntil\<close> is fulfilled and the
  failure is not reported to the host.
\<close>

theorem failed_install_still_fulfils:
  assumes "u \<in> set CORE_ASSETS" and "entry_response h u = Inl e"
  shows "fst (install_handler h s) = WaitFulfilled \<and>
         caches (snd (install_handler h s)) = caches_open STATIC_CACHE (caches s) \<and>
         skip_waiting (snd (install_handler h s)) = skip_waiting s \<and>
         last (console (snd (install_handler h s))) = ''[SW] Cache installation failed:''"
proof -
  from fetch_entries_fails [OF assms] obtain e' where "fetch_entries h CORE_ASSETS = Inl e'" ..
  then show ?thesis
    by (simp add: install_handler_def cache_addAll_def Let_def console_log_def)
qed

theorem failed_install_still_fulfils_witness:
  "fst (install_handler cdn_down fresh) = WaitFulfilled \<and>
   caches (snd (install_handler cdn_down fresh)) = [(STATIC_CACHE, [])] \<and>
   skip_waiting (snd (install_handler cdn_down fresh)) = False"
  using failed_install_still_fulfils
    [where h = cdn_down and s = fresh and u = "''https://cdn.tailwindcss.com''"
       and e = "TypeError ''Failed to fetch''"]
  by (simp add: CORE_ASSETS_def entry_response_def request_of_def cdn_down_def offline_def
      fresh_def caches_open_def)

text \<open>The specification asks for an install that fails, which is a rejected promise;
  with one entry of the manifest unreachable the promise is fulfilled.\<close>

theorem failed_install_not_reported:
  "entry_response cdn_down ''https://cdn.tailwindcss.com'' = Inl (TypeError ''Failed to fetch'') \<and>
   fst (install_handler cdn_down fresh) = WaitFulfilled"
  by (simp add: install_handler_def cache_addAll_def entry_response_def request_of_def
      cdn_down_def offline_def CORE_ASSETS_def shell_def Let_def split: prod.splits option.splits)

subsection \<open>Write through\<close>

text \<open>
  C3, as the code has it. A GET request that is not stored and gets a response of status
  200 and type basic from the network is answered with that response, and the write of the
  response to the cache \<open>CACHE_NAME\<close> under the request's identity is started but not
  waited for: the store is as it was when the answer is given. Once the pending writes
  have settled, that one being accepted by the store, the response is in the cache
  \<open>CACHE_NAME\<close>, and the same request is answered with it whatever the network would
  do, and the network is not asked.
\<close>

theorem write_through_after_settle:
  assumes "req_method req = ''GET''" and "\<not> prefix ''chrome-extension://'' (url req)"
    and "caches_match h (caches s) (url req) = Inr None"
    and "fetch h req = Inr (Some r)" and "status r = 200" and "rtype r = ''basic''"
    and "put_rejects hs CACHE_NAME (url req) = None"
    and "match_rejects h' (url req) = None"
  shows "fst (fetch_handler h req s) = Resolved (Some r) \<and>
         caches (snd (fetch_handler h req s)) = caches s \<and>
         pending (snd (fetch_handler h req s)) = pending s @ [(url req, r)] \<and>
         (\<exists>c. map_of (caches (settle hs (snd (fetch_handler h req s)))) CACHE_NAME = Some c \<and>
              map_of c (url req) = Some r) \<and>
         fst (fetch_handler h' req (settle hs (snd (fetch_handler h req s)))) = Resolved (Some r) \<and>
         net_log (snd (fetch_handler h' req (settle hs (snd (fetch_handler h req s)))))
           = net_log (settle hs (snd (fetch_handler h req s)))"
proof -
  let ?s1 = "snd (fetch_handler h req s)"
  let ?S = "caches_open CACHE_NAME (fold (settle_write hs) (pending s) (caches s))"
  let ?S' = "AList.map_entry CACHE_NAME (AList.update (url req) r) ?S"
  from assms(3) have miss: "match_all (caches s) (url req) = None"
    by (simp add: caches_match_def split: option.splits)
  have first: "fst (fetch_handler h req s) = Resolved (Some r)"
    and pend: "pending ?s1 = pending s @ [(url req, r)]"
    using assms(1-6)
    by (simp_all add: fetch_handler_def on_response_def console_log_def Let_def)
  have store: "caches ?s1 = caches s"
    by (rule fetch_handler_caches)
  have settled: "caches (settle hs ?s1) = ?S'"
    using assms(7) by (simp add: settle_def pend store settle_write_def cache_put_def)
  have before: "misses_before CACHE_NAME ?S (url req)"
    by (intro misses_before_caches_open misses_before_fold misses_before_miss miss)
  have hit: "match_all ?S' (url req) = Some r"
    using before caches_open_present by (rule match_all_put_first)
  have kept: "\<exists>c. map_of ?S' CACHE_NAME = Some c \<and> map_of c (url req) = Some r"
    using caches_open_present by (rule stored_after_put)
  have second: "fetch_handler h' req (settle hs ?s1)
      = (Resolved (Some r),
         console_log (''[SW] Serving from cache: '' @ url req) (settle hs ?s1))"
    using assms(1,2,8) hit settled
    by (simp add: fetch_handler_def [of h'] caches_match_def)
  from first store pend kept show ?thesis
    by (simp add: second settled console_log_fields)
qed

theorem write_through_after_settle_witness:
  "fst (fetch_handler (serving shell) script_request installed) = Resolved (Some shell) \<and>
   fst (fetch_handler offline script_request
          (settle offline (snd (fetch_handler (serving shell) script_request installed))))
     = Resolved (Some shell) \<and>
   net_log (snd (fetch_handler offline script_request
          (settle offline (snd (fetch_handler (serving shell) script_request installed)))))
     = [script_request]"
proof -
  have log: "net_log (settle offline (snd (fetch_handler (serving shell) script_request installed)))
      = [script_request]"
    by (simp add: settle_def fetch_handler_def on_response_def caches_match_def Let_def
        console_log_fields serving_def offline_def script_request_def installed_def shell_def
        CACHE_NAME_def STATIC_CACHE_def)
  have hyps: "req_method script_request = ''GET''"
    "\<not> prefix ''chrome-extension://'' (url script_request)"
    "caches_match (serving shell) (caches installed) (url script_request) = Inr None"
    "fetch (serving shell) script_request = Inr (Some shell)"
    "status shell = 200" "rtype shell = ''basic''"
    "put_rejects offline CACHE_NAME (url script_request) = None"
    "match_rejects offline (url script_request) = None"
    by (simp_all add: caches_match_def serving_def offline_def script_request_def installed_def
        shell_def)
  from write_through_after_settle [OF hyps] show ?thesis
    by (simp add: log)
qed

text \<open>The specification has the request that follows at once served from the store.
  With the write still pending the same request is a miss again: it goes to the network,
  and with the network down it is rejected.\<close>

theorem write_through_not_immediate:
  "fst (fetch_handler (serving shell) script_request installed) = Resolved (Some shell) \<and>
   fst (fetch_handler offline script_request
          (snd (fetch_handler (serving shell) script_request installed)))
     = RejectedWith (TypeError ''Failed to fetch'') \<and>
   net_log (snd (fetch_handler offline script_request
          (snd (fetch_handler (serving shell) script_request installed))))
     = [script_request, script_request]"
  by (simp add: fetch_handler_def on_response_def on_error_def caches_match_def Let_def
      console_log_fields serving_def offline_def script_request_def installed_def shell_def
      CACHE_NAME_def STATIC_CACHE_def)

subsection \<open>Eligibility for the dynamic cache\<close>

text \<open>
  C4. The fetch handler itself leaves the store as it is, and it starts a write only when
  the request is a GET and the network answered it with a response of status 200 and type
  basic, which is also the answer given. Whenever the pending writes land, what the
  handler has added to the store is the put of that response to the cache \<open>CACHE_NAME\<close>
  under the request, and no other cache is touched. A request that is not a GET is left
  to the host with the state unchanged. A network response with another status or another
  type is given to the caller as it came, no write is started for it and the store stays
  as it was.
\<close>

theorem only_eligible_responses_persisted:
  "caches (snd (fetch_handler h req s)) = caches s \<and>
   (pending (snd (fetch_handler h req s)) \<noteq> pending s \<longrightarrow>
      req_method req = ''GET'' \<and>
      (\<exists>r. fetch h req = Inr (Some r) \<and> status r = 200 \<and> rtype r = ''basic'' \<and>
           fst (fetch_handler h req s) = Resolved (Some r) \<and>
           pending (snd (fetch_handler h req s)) = pending s @ [(url req, r)])) \<and>
   (caches (settle hs (snd (fetch_handler h req s))) \<noteq> caches (settle hs s) \<longrightarrow>
      req_method req = ''GET'' \<and>
      (\<exists>r. fetch h req = Inr (Some r) \<and> status r = 200 \<and> rtype r = ''basic'' \<and>
           fst (fetch_handler h req s) = Resolved (Some r) \<and>
           caches (settle hs (snd (fetch_handler h req s)))
             = cache_put hs CACHE_NAME (url req) r
                 (caches_open CACHE_NAME (caches (settle hs s))))) \<and>
   (\<forall>n. n \<noteq> CACHE_NAME \<longrightarrow>
      map_of (caches (settle hs (snd (fetch_handler h req s)))) n = map_of (caches s) n) \<and>
   (req_method req \<noteq> ''GET'' \<longrightarrow> fetch_handler h req s = (NotHandled, s)) \<and>
   (\<forall>r. req_method req = ''GET'' \<and> \<not> prefix ''chrome-extension://'' (url req) \<and>
        caches_match h (caches s) (url req) = Inr None \<and>
        fetch h req = Inr (Some r) \<and> (status r \<noteq> 200 \<or> rtype r \<noteq> ''basic'') \<longrightarrow>
        fst (fetch_handler h req s) = Resolved (Some r) \<and>
        pending (snd (fetch_handler h req s)) = pending s \<and>
        caches (settle hs (snd (fetch_handler h req s))) = caches (settle hs s))"
proof -
  let ?s1 = "snd (fetch_handler h req s)"
  have a: "caches ?s1 = caches s"
    by (rule fetch_handler_caches)
  have b: "pending ?s1 \<noteq> pending s \<longrightarrow>
      req_method req = ''GET'' \<and>
      (\<exists>r. fetch h req = Inr (Some r) \<and> status r = 200 \<and> rtype r = ''basic'' \<and>
           fst (fetch_handler h req s) = Resolved (Some r) \<and>
           pending ?s1 = pending s @ [(url req, r)])"
    by (auto simp: fetch_handler_def on_response_def on_error_def console_log_def Let_def
        split: sum.splits option.splits if_splits)
  have settle_eq: "caches (settle hs ?s1) = caches (settle hs s)" if "pending ?s1 = pending s"
    using that by (simp add: settle_def a)
  have settle_app: "caches (settle hs ?s1)
      = cache_put hs CACHE_NAME (url req) r (caches_open CACHE_NAME (caches (settle hs s)))"
    if "pending ?s1 = pending s @ [(url req, r)]" for r
    using that by (simp add: settle_def a settle_write_def)
  have c: "caches (settle hs ?s1) \<noteq> caches (settle hs s) \<longrightarrow>
      req_method req = ''GET'' \<and>
      (\<exists>r. fetch h req = Inr (Some r) \<and> status r = 200 \<and> rtype r = ''basic'' \<and>
           fst (fetch_handler h req s) = Resolved (Some r) \<and>
           caches (settle hs ?s1)
             = cache_put hs CACHE_NAME (url req) r
                 (caches_open CACHE_NAME (caches (settle hs s))))"
  proof
    assume "caches (settle hs ?s1) \<noteq> caches (settle hs s)"
    with settle_eq have "pending ?s1 \<noteq> pending s" by blast
    with b obtain r where "req_method req = ''GET''" "fetch h req = Inr (Some r)"
      "status r = 200" "rtype r = ''basic''" "fst (fetch_handler h req s) = Resolved (Some r)"
      "pending ?s1 = pending s @ [(url req, r)]"
      by blast
    with settle_app [of r] show "req_method req = ''GET'' \<and>
      (\<exists>r. fetch h req = Inr (Some r) \<and> status r = 200 \<and> rtype r = ''basic'' \<and>
           fst (fetch_handler h req s) = Resolved (Some r) \<and>
           caches (settle hs ?s1)
             = cache_put hs CACHE_NAME (url req) r
                 (caches_open CACHE_NAME (caches (settle hs s))))"
      by blast
  qed
  have d: "\<forall>n. n \<noteq> CACHE_NAME \<longrightarrow> map_of (caches (settle hs ?s1)) n = map_of (caches s) n"
    by (simp add: settle_def a map_of_fold_settle_other)
  have e: "req_method req \<noteq> ''GET'' \<longrightarrow> fetch_handler h req s = (NotHandled, s)"
    by (simp add: fetch_handler_def)
  have f: "\<forall>r. req_method req = ''GET'' \<and> \<not> prefix ''chrome-extension://'' (url req) \<and>
        caches_match h (caches s) (url req) = Inr None \<and>
        fetch h req = Inr (Some r) \<and> (status r \<noteq> 200 \<or> rtype r \<noteq> ''basic'') \<longrightarrow>
        fst (fetch_handler h req s) = Resolved (Some r) \<and>
        pending ?s1 = pending s \<and>
        caches (settle hs ?s1) = caches (settle hs s)"
  proof (intro allI impI)
    fix r
    assume h: "req_method req = ''GET'' \<and> \<not> prefix ''chrome-extension://'' (url req) \<and>
        caches_match h (caches s) (url req) = Inr None \<and>
        fetch h req = Inr (Some r) \<and> (status r \<noteq> 200 \<or> rtype r \<noteq> ''basic'')"
    then have "fst (fetch_handler h req s) = Resolved (Some r) \<and> pending ?s1 = pending s"
      by (auto simp: fetch_handler_def on_response_def console_log_def Let_def)
    with settle_eq show "fst (fetch_handler h req s) = Resolved (Some r) \<and>
        pending ?s1 = pending s \<and> caches (settle hs ?s1) = caches (settle hs s)"
      by blast
  qed
  from a b c d e f show ?thesis by blast
qed

theorem only_eligible_responses_persisted_witness:
  "fetch_handler (serving shell) post_request installed = (NotHandled, installed) \<and>
   fst (fetch_handler (serving not_found) page_request installed) = Resolved (Some not_found) \<and>
   pending (snd (fetch_handler (serving not_found) page_request installed)) = [] \<and>
   caches (settle offline (snd (fetch_handler (serving not_found) page_request installed)))
     = caches installed \<and>
   caches (settle offline (snd (fetch_handler (serving shell) script_request installed)))
     = [(STATIC_CACHE, [(''/'', shell)]), (CACHE_NAME, [(''/assets/app.js'', shell)])] \<and>
   fst (fetch_handler (serving shell) script_request installed) = Resolved (Some shell)"
proof -
  have post: "req_method post_request \<noteq> ''GET''"
    by (simp add: post_request_def)
  have page: "req_method page_request = ''GET'' \<and> \<not> prefix ''chrome-extension://'' (url page_request) \<and>
      caches_match (serving not_found) (caches installed) (url page_request) = Inr None \<and>
      fetch (serving not_found) page_request = Inr (Some not_found) \<and>
      (status not_found \<noteq> 200 \<or> rtype not_found \<noteq> ''basic'')"
    by (simp add: caches_match_def serving_def offline_def page_request_def installed_def
        not_found_def)
  have plain: "caches (settle offline installed) = caches installed" "pending installed = []"
    by (simp_all add: settle_def installed_def)
  have landed: "caches (settle offline (snd (fetch_handler (serving shell) script_request installed)))
      = [(STATIC_CACHE, [(''/'', shell)]), (CACHE_NAME, [(''/assets/app.js'', shell)])]"
    by (simp add: settle_def settle_write_def fetch_handler_def on_response_def caches_match_def
        cache_put_def caches_open_def Let_def console_log_fields serving_def offline_def
        script_request_def installed_def shell_def CACHE_NAME_def STATIC_CACHE_def)
  have changed: "caches (settle offline (snd (fetch_handler (serving shell) script_request installed)))
      \<noteq> caches (settle offline installed)"
    by (simp add: landed plain) (simp add: installed_def)
  note a = only_eligible_responses_persisted [of "serving shell" post_request installed offline]
  note b = only_eligible_responses_persisted [of "serving not_found" page_request installed offline]
  note c = only_eligible_responses_persisted [of "serving shell" script_request installed offline]
  from a post have 1: "fetch_handler (serving shell) post_request installed = (NotHandled, installed)"
    by blast
  from b page have 2: "fst (fetch_handler (serving not_found) page_request installed)
        = Resolved (Some not_found) \<and>
      pending (snd (fetch_handler (serving not_found) page_request installed)) = pending installed \<and>
      caches (settle offline (snd (fetch_handler (serving not_found) page_request installed)))
        = caches (settle offline installed)"
    by blast
  from c changed obtain r where "fetch (serving shell) script_request = Inr (Some r)"
    and "fst (fetch_handler (serving shell) script_request installed) = Resolved (Some r)"
    by blast
  then have 3: "fst (fetch_handler (serving shell) script_request installed) = Resolved (Some shell)"
    by (simp add: serving_def)
  from 1 2 3 landed plain show ?thesis by simp
qed

subsection \<open>Activation\<close>

text \<open>
  C5. When no delete is refused, activation fulfils its promise and leaves exactly the
  caches named \<open>CACHE_NAME\<close> and \<open>STATIC_CACHE\<close>, with their contents: a cache of any
  other name, such as the dynamic cache of an earlier version tag, is gone, and with it
  its entries.
\<close>

theorem activate_deletes_stale_namespaces:
  assumes "\<forall>n \<in> fst ` set (caches s). n \<noteq> CACHE_NAME \<and> n \<noteq> STATIC_CACHE \<longrightarrow> delete_rejects h n = None"
  shows "fst (activate_handler h s) = WaitFulfilled \<and>
         caches (snd (activate_handler h s))
           = filter (\<lambda>(n, c). n = CACHE_NAME \<or> n = STATIC_CACHE) (caches s) \<and>
         (\<forall>old. old \<noteq> CACHE_NAME \<and> old \<noteq> STATIC_CACHE \<longrightarrow>
            map_of (caches (snd (activate_handler h s))) old = None) \<and>
         map_of (caches (snd (activate_handler h s))) CACHE_NAME = map_of (caches s) CACHE_NAME \<and>
         map_of (caches (snd (activate_handler h s))) STATIC_CACHE = map_of (caches s) STATIC_CACHE"
proof -
  have errs: "fst (delete_old h (map fst (caches s)) (console_log ''[SW] Activating service worker'' s)) = []"
    using assms by (auto simp: delete_old_errors map_filter_Nil_iff stale_def)
  have out: "fst (activate_handler h s) = WaitFulfilled"
    by (simp add: activate_handler_eq errs)
  have st: "caches (snd (activate_handler h s))
      = filter (\<lambda>(n, c). n = CACHE_NAME \<or> n = STATIC_CACHE) (caches s)"
    unfolding activate_caches using assms by (force intro!: filter_cong)
  have gone: "\<forall>old. old \<noteq> CACHE_NAME \<and> old \<noteq> STATIC_CACHE \<longrightarrow>
      map_of (filter (\<lambda>(n, c). n = CACHE_NAME \<or> n = STATIC_CACHE) (caches s)) old = None"
    by (auto simp: map_of_eq_None_iff)
  from out st gone show ?thesis by (simp add: map_of_filter_current)
qed

theorem activate_deletes_stale_namespaces_witness:
  "fst (activate_handler offline upgraded) = WaitFulfilled \<and>
   caches (snd (activate_handler offline upgraded)) = [(STATIC_CACHE, [(''/'', shell)]), (CACHE_NAME, [])] \<and>
   map_of (caches (snd (activate_handler offline upgraded))) ''pre-prd-v0'' = None"
  using activate_deletes_stale_namespaces [of upgraded offline]
  by (simp add: upgraded_def offline_def CACHE_NAME_def STATIC_CACHE_def)

subsection \<open>Network failure\<close>

text \<open>
  C6. A navigation request (a GET that is not stored) whose network fetch rejects is
  answered with the stored response of the root document \<^verbatim>\<open>/\<close>, when there is one.
\<close>

theorem navigation_falls_back_to_root:
  assumes "req_method req = ''GET''" and "\<not> prefix ''chrome-extension://'' (url req)"
    and "caches_match h (caches s) (url req) = Inr None"
    and "fetch h req = Inl err" and "mode req = ''navigate''"
    and "caches_match h (caches s) ''/'' = Inr (Some root)"
  shows "fst (fetch_handler h req s) = Resolved (Some root)"
  using assms
  by (simp add: fetch_handler_def on_error_def Let_def console_log_fields)

theorem navigation_falls_back_to_root_witness:
  "fst (fetch_handler offline page_request installed) = Resolved (Some shell)"
  using navigation_falls_back_to_root
    [where h = offline and req = page_request and s = installed and root = shell
       and err = "TypeError ''Failed to fetch''"]
  by (simp add: caches_match_def offline_def page_request_def installed_def)

text \<open>
  C7. A request that is not a navigation (a GET that is not stored) whose network fetch
  rejects gets that very rejection; nothing is put in its place and the store is unchanged.
\<close>

theorem subresource_failure_propagates:
  assumes "req_method req = ''GET''" and "\<not> prefix ''chrome-extension://'' (url req)"
    and "caches_match h (caches s) (url req) = Inr None"
    and "fetch h req = Inl err" and "mode req \<noteq> ''navigate''"
  shows "fst (fetch_handler h req s) = RejectedWith err \<and>
         caches (snd (fetch_handler h req s)) = caches s"
  using assms
  by (simp add: fetch_handler_def on_error_def Let_def console_log_fields)

theorem subresource_failure_propagates_witness:
  "fst (fetch_handler offline script_request installed) = RejectedWith (TypeError ''Failed to fetch'')"
  using subresource_failure_propagates
    [where h = offline and req = script_request and s = installed
       and err = "TypeError ''Failed to fetch''"]
  by (simp add: caches_match_def offline_def script_request_def installed_def)

subsection \<open>A delete that fails during activation\<close>

text \<open>
  C8, as the code has it. When the delete of an old cache is refused, that cache stays and
  every other old cache whose delete is accepted is still removed, the two current caches
  being kept; the promise given to \<^verbatim>\<open>event.waitUntil\<close> is rejected with the error of a
  refused delete, and the step after the cleanup, \<^verbatim>\<open>self.clients.claim()\<close>, is not run.
\<close>

theorem failed_delete_rejects_activation:
  assumes "(n, c) \<in> set (caches s)" and "n \<noteq> CACHE_NAME" and "n \<noteq> STATIC_CACHE"
    and "delete_rejects h n = Some e"
  shows "(\<exists>m e'. m \<in> fst ` set (caches s) \<and> m \<noteq> CACHE_NAME \<and> m \<noteq> STATIC_CACHE \<and>
            delete_rejects h m = Some e' \<and> fst (activate_handler h s) = WaitRejected e') \<and>
         claimed (snd (activate_handler h s)) = claimed s \<and>
         caches (snd (activate_handler h s))
           = filter (\<lambda>(m, c). m = CACHE_NAME \<or> m = STATIC_CACHE \<or> delete_rejects h m \<noteq> None) (caches s) \<and>
         (n, c) \<in> set (caches (snd (activate_handler h s)))"
proof -
  let ?res = "delete_old h (map fst (caches s)) (console_log ''[SW] Activating service worker'' s)"
  let ?f = "\<lambda>n. if stale n then delete_rejects h n else None"
  have "n \<in> set (map fst (caches s))" using assms(1) by force
  with assms(2-4) have "fst ?res \<noteq> []"
    by (auto simp: delete_old_errors map_filter_Nil_iff stale_def)
  then obtain e' es where es: "fst ?res = e' # es" by (cases "fst ?res") auto
  then have "\<exists>m \<in> set (map fst (caches s)). ?f m = Some e'"
    by (simp only: delete_old_errors) (rule map_filter_ConsD)
  then obtain m where m: "m \<in> fst ` set (caches s)" "stale m" "delete_rejects h m = Some e'"
    by (auto split: if_splits)
  have out: "fst (activate_handler h s) = WaitRejected e'"
    by (simp add: activate_handler_eq es)
  have cl: "claimed (snd (activate_handler h s)) = claimed s"
    by (simp add: activate_handler_eq es delete_old_flags console_log_fields)
  have kept: "(n, c) \<in> set (caches (snd (activate_handler h s)))"
    using assms(1,4) by (simp add: activate_caches)
  from m out cl kept show ?thesis
    by (auto simp: activate_caches stale_def)
qed

theorem failed_delete_rejects_activation_witness:
  "caches (snd (activate_handler stuck_delete upgraded))
     = [(''pre-prd-v0'', [(''/editor'', shell)]), (STATIC_CACHE, [(''/'', shell)]), (CACHE_NAME, [])] \<and>
   claimed (snd (activate_handler stuck_delete upgraded)) = False"
  using failed_delete_rejects_activation
    [where h = stuck_delete and s = upgraded and n = "''pre-prd-v0''"
       and c = "[(''/editor'', shell)]" and e = "DOMException ''The operation failed''"]
  by (simp add: upgraded_def stuck_delete_def offline_def CACHE_NAME_def STATIC_CACHE_def)

text \<open>The specification has activation complete; with one delete refused the
  handler's promise is rejected and the clients are not claimed.\<close>

theorem failed_delete_activation_incomplete:
  "delete_rejects stuck_delete ''pre-prd-v0'' = Some (DOMException ''The operation failed'') \<and>
   fst (activate_handler stuck_delete upgraded) = WaitRejected (DOMException ''The operation failed'') \<and>
   \<not> claimed (snd (activate_handler stuck_delete upgraded))"
  by (simp add: activate_handler_eq delete_old_Cons delete_old_flags console_log_fields stale_def
      upgraded_def stuck_delete_def offline_def CACHE_NAME_def STATIC_CACHE_def)

subsection \<open>A store that cannot be read\<close>

text \<open>
  C9, as the code has it. When the lookup of an intercepted GET request is rejected by the
  store, the promise given to \<^verbatim>\<open>respondWith\<close> is rejected with the store's error: the
  network is not asked and the state is unchanged.
\<close>

theorem store_read_failure_rejects:
  assumes "req_method req = ''GET''" and "\<not> prefix ''chrome-extension://'' (url req)"
    and "match_rejects h (url req) = Some e"
  shows "fetch_handler h req s = (RejectedWith e, s)"
  using assms
  by (simp add: fetch_handler_def caches_match_def)

theorem store_read_failure_rejects_witness:
  "fetch_handler broken_store page_request installed
     = (RejectedWith (DOMException ''The operation failed''), installed)"
  using store_read_failure_rejects
    [where h = broken_store and req = page_request and s = installed
       and e = "DOMException ''The operation failed''"]
  by (simp add: broken_store_def serving_def offline_def page_request_def)

text \<open>The specification has the handler go on to the network, which here would
  answer; the handler rejects instead and sends no request.\<close>

theorem store_read_failure_not_a_miss:
  "fetch broken_store page_request = Inr (Some shell) \<and>
   fst (fetch_handler broken_store page_request installed)
     = RejectedWith (DOMException ''The operation failed'') \<and>
   net_log (snd (fetch_handler broken_store page_request installed)) = net_log installed"
  by (simp add: fetch_handler_def caches_match_def broken_store_def serving_def offline_def
      page_request_def)

subsection \<open>Navigation with no stored root document\<close>

text \<open>
  C10. A navigation request (a GET that is not stored) whose network fetch rejects, in a
  store that holds nothing for \<^verbatim>\<open>/\<close>, is answered with the empty result of that lookup:
  the promise resolves with \<^verbatim>\<open>undefined\<close> and the network error is not thrown again.
\<close>

theorem navigation_without_root_resolves_empty:
  assumes "req_method req = ''GET''" and "\<not> prefix ''chrome-extension://'' (url req)"
    and "caches_match h (caches s) (url req) = Inr None"
    and "fetch h req = Inl err" and "mode req = ''navigate''"
    and "caches_match h (caches s) ''/'' = Inr None"
  shows "fst (fetch_handler h req s) = Resolved None"
  using assms
  by (simp add: fetch_handler_def on_error_def Let_def console_log_fields)

theorem navigation_without_root_resolves_empty_witness:
  "fst (fetch_handler offline page_request fresh) = Resolved None"
  using navigation_without_root_resolves_empty
    [where h = offline and req = page_request and s = fresh
       and err = "TypeError ''Failed to fetch''"]
  by (simp add: caches_match_def offline_def page_request_def fresh_def)

end
